theory Spec2Isabelle
  imports Main "HOL-Library.Sublist"
begin

section \<open>The record model (app/models.py)\<close>

text \<open>
  The three pydantic models of \<^verbatim>\<open>app/models.py\<close>. A field declared
  \<^verbatim>\<open>Optional[str] = Field(None, ...)\<close> is a \<open>string option\<close>, a field declared
  \<^verbatim>\<open>List[T] = Field(default_factory=list, ...)\<close> is a list.
\<close>

record Education =
  degree :: "string option"
  institution :: "string option"
  year :: "string option"

record Experience =
  role :: "string option"
  company :: "string option"
  duration :: "string option"
  description :: "string option"

record ResumeData =
  full_name :: "string option"
  email :: "string option"
  phone :: "string option"
  skills :: "string list"
  experience :: "Experience list"
  education :: "Education list"
  summary :: "string option"

subsection \<open>The record format\<close>

text \<open>
  Modelled from the spec: the serialisation and deserialisation of the record format is
  done by pydantic's \<^verbatim>\<open>BaseModel\<close>, which is library code and not part of the
  repository's sources. The format is the tree of plain values that a model is dumped to:
  an object with one entry per declared field, in declaration order, a string or null for
  an optional string, an array for a list. Reading it back looks every declared field up by
  name, takes the declared default (null, or the empty list) for a field that is absent,
  and rejects a value of the wrong shape.
\<close>

datatype json = JNull | JString string | JArray "json list" | JObject "(string \<times> json) list"

definition dump_optional_str :: "string option \<Rightarrow> json" where
  "dump_optional_str v = (case v of None \<Rightarrow> JNull | Some s \<Rightarrow> JString s)"

definition dump_Education :: "Education \<Rightarrow> json" where
  "dump_Education e = JObject
     [(''degree'', dump_optional_str (degree e)),
      (''institution'', dump_optional_str (institution e)),
      (''year'', dump_optional_str (year e))]"

definition dump_Experience :: "Experience \<Rightarrow> json" where
  "dump_Experience e = JObject
     [(''role'', dump_optional_str (role e)),
      (''company'', dump_optional_str (company e)),
      (''duration'', dump_optional_str (duration e)),
      (''description'', dump_optional_str (description e))]"

definition dump_ResumeData :: "ResumeData \<Rightarrow> json" where
  "dump_ResumeData r = JObject
     [(''full_name'', dump_optional_str (full_name r)),
      (''email'', dump_optional_str (email r)),
      (''phone'', dump_optional_str (phone r)),
      (''skills'', JArray (map JString (skills r))),
      (''experience'', JArray (map dump_Experience (experience r))),
      (''education'', JArray (map dump_Education (education r))),
      (''summary'', dump_optional_str (summary r))]"

text \<open>
  Modelled from the spec: reading the record format back, pydantic's validation, which is
  not part of the repository's sources. \<open>None\<close> is the validation error.
\<close>

fun validate_str :: "json \<Rightarrow> string option" where
  "validate_str (JString s) = Some s"
| "validate_str _ = None"

fun validate_optional_str :: "json option \<Rightarrow> string option option" where
  "validate_optional_str None = Some None"
| "validate_optional_str (Some JNull) = Some None"
| "validate_optional_str (Some (JString s)) = Some (Some s)"
| "validate_optional_str (Some _) = None"

fun validate_all :: "(json \<Rightarrow> 'a option) \<Rightarrow> json list \<Rightarrow> 'a list option" where
  "validate_all f [] = Some []"
| "validate_all f (x # xs) =
     (case f x of None \<Rightarrow> None
      | Some y \<Rightarrow> (case validate_all f xs of None \<Rightarrow> None | Some ys \<Rightarrow> Some (y # ys)))"

fun validate_list :: "(json \<Rightarrow> 'a option) \<Rightarrow> json option \<Rightarrow> 'a list option" where
  "validate_list f None = Some []"
| "validate_list f (Some (JArray xs)) = validate_all f xs"
| "validate_list f (Some _) = None"

fun validate_Education :: "json \<Rightarrow> Education option" where
  "validate_Education (JObject kvs) =
     (case (validate_optional_str (map_of kvs ''degree''),
            validate_optional_str (map_of kvs ''institution''),
            validate_optional_str (map_of kvs ''year'')) of
        (Some d, Some i, Some y) \<Rightarrow> Some \<lparr>degree = d, institution = i, year = y\<rparr>
      | _ \<Rightarrow> None)"
| "validate_Education _ = None"

fun validate_Experience :: "json \<Rightarrow> Experience option" where
  "validate_Experience (JObject kvs) =
     (case (validate_optional_str (map_of kvs ''role''),
            validate_optional_str (map_of kvs ''company''),
            validate_optional_str (map_of kvs ''duration''),
            validate_optional_str (map_of kvs ''description'')) of
        (Some r, Some c, Some d, Some t) \<Rightarrow>
          Some \<lparr>role = r, company = c, duration = d, description = t\<rparr>
      | _ \<Rightarrow> None)"
| "validate_Experience _ = None"

fun validate_ResumeData :: "json \<Rightarrow> ResumeData option" where
  "validate_ResumeData (JObject kvs) =
     (case (validate_optional_str (map_of kvs ''full_name''),
            validate_optional_str (map_of kvs ''email''),
            validate_optional_str (map_of kvs ''phone''),
            validate_list validate_str (map_of kvs ''skills''),
            validate_list validate_Experience (map_of kvs ''experience''),
            validate_list validate_Education (map_of kvs ''education''),
            validate_optional_str (map_of kvs ''summary'')) of
        (Some n, Some e, Some p, Some sk, Some ex, Some ed, Some su) \<Rightarrow>
          Some \<lparr>full_name = n, email = e, phone = p, skills = sk,
                experience = ex, education = ed, summary = su\<rparr>
      | _ \<Rightarrow> None)"
| "validate_ResumeData _ = None"

section \<open>Uploaded files, exceptions and the job context (app/main.py, app/helpers.py)\<close>

text \<open>
  An uploaded file has a name and the bytes of its body (\<^verbatim>\<open>file.filename\<close> and
  \<^verbatim>\<open>file.file\<close>).
\<close>

record UploadFile =
  filename :: string
  content :: string

text \<open>
  The only exception that leaves \<^verbatim>\<open>process_single_resume\<close> and
  \<^verbatim>\<open>batch_upload_resumes\<close> is FastAPI's \<^verbatim>\<open>HTTPException\<close>. An exception raised
  by a collaborator is represented by its text, \<^verbatim>\<open>str(e)\<close>.
\<close>

datatype exn = HTTPException (status_code: nat) (detail: string)

text \<open>
  \<^verbatim>\<open>ResumeState\<close> is a dictionary from field names to values; a stage returns a
  dictionary holding the fields it sets.
\<close>

datatype pyval = Str string | StrList "string list" | PyNone | Parsed ResumeData

type_synonym ResumeState = "string \<rightharpoonup> pyval"

definition endswith :: "string \<Rightarrow> string \<Rightarrow> bool" where
  "endswith s suf = (length suf \<le> length s \<and> drop (length s - length suf) s = suf)"

text \<open>Line 29: \<^verbatim>\<open>temp_path = f"temp_{file.filename}"\<close>.\<close>

definition temp_path :: "UploadFile \<Rightarrow> string" where
  "temp_path f = ''temp_'' @ filename f"

text \<open>Lines 38-44: the initial state of a job.\<close>

definition initial_state :: "string \<Rightarrow> ResumeState" where
  "initial_state p =
     [''pdf_path'' \<mapsto> Str p, ''text_chunks'' \<mapsto> StrList [], ''parsed_data'' \<mapsto> PyNone,
      ''question'' \<mapsto> Str [], ''answer'' \<mapsto> Str []]"

text \<open>\<^verbatim>\<open>"\n".join(chunks)\<close>\<close>

fun join_lines :: "string list \<Rightarrow> string" where
  "join_lines [] = []"
| "join_lines [c] = c"
| "join_lines (c # cs) = c @ [CHR 0x0A] @ join_lines cs"

subsection \<open>The collaborators\<close>

text \<open>
  The PDF loader, the text splitter, the vector store and the language model are external.
  Each is a parameter. The first argument of a fallible collaborator identifies the call by
  the index of the job that makes it (a job calls each collaborator at most once), so that
  the outcome of a network call may differ from one call to the next. \<open>Inl e\<close> is an
  exception with text \<open>e\<close>.
  \<^item> \<open>pdf_load\<close> is \<^verbatim>\<open>PyPDFLoader(path).load()\<close>; it is given what the file system holds
    at the path when it runs (\<open>None\<close> when there is no such file) and returns the pages.
    A document is represented by its \<^verbatim>\<open>page_content\<close>.
  \<^item> \<open>split_documents\<close> is the \<^verbatim>\<open>RecursiveCharacterTextSplitter\<close>.
  \<^item> \<open>add_documents\<close> is \<^verbatim>\<open>vector_store.add_documents\<close>; it is given the store and
    the documents and returns the store it leaves.
  \<^item> \<open>chain_ainvoke\<close> is \<^verbatim>\<open>chain.ainvoke({"context": context})\<close> of \<^verbatim>\<open>parse_resume\<close>.
\<close>

record collaborators =
  pdf_load :: "nat \<Rightarrow> string option \<Rightarrow> string + string list"
  split_documents :: "string list \<Rightarrow> string list"
  add_documents :: "nat \<Rightarrow> string list \<Rightarrow> string list \<Rightarrow> string + string list"
  chain_ainvoke :: "nat \<Rightarrow> string \<Rightarrow> string + ResumeData"

subsection \<open>The shared state and the frame of one job\<close>

text \<open>
  What the jobs share: the file system (a map from paths to contents), the counter of the
  module-level \<^verbatim>\<open>asyncio.Semaphore\<close> and the vector store.
\<close>

record world =
  files :: "string \<rightharpoonup> string"
  semaphore :: int
  vector_store :: "string list"

text \<open>
  \<^verbatim>\<open>process_single_resume\<close> is a coroutine. Between two suspension points it runs
  without interruption; at a suspension point any other job may run. A job is the frame of
  the coroutine: its argument, the point where it is suspended, and its local
  \<^verbatim>\<open>state\<close>. The points are:
  \<^item> \<open>Start\<close>: the task exists and has not run yet;
  \<^item> \<open>Acquiring\<close>: at \<^verbatim>\<open>async with semaphore\<close> (line 36), the temporary file written;
  \<^item> \<open>Loading\<close>: in \<^verbatim>\<open>ingest_pdf\<close> at \<^verbatim>\<open>await asyncio.to_thread(_load)\<close>;
  \<^item> \<open>Adding splits\<close>: in \<^verbatim>\<open>ingest_pdf\<close> at the second \<^verbatim>\<open>await\<close>, with the
    local \<^verbatim>\<open>splits\<close>;
  \<^item> \<open>Parsing\<close>: in \<^verbatim>\<open>parse_resume\<close> at \<^verbatim>\<open>await chain.ainvoke(...)\<close>;
  \<^item> \<open>Done r\<close>: the task is finished with the value or the exception \<open>r\<close>.

  The \<open>trace\<close> of a job is instrumentation: the operations the job has performed on what
  it shares with the others, in order. \<open>Cleanup b\<close> is one run of the \<^verbatim>\<open>finally\<close>
  block, with \<open>b\<close> telling whether \<^verbatim>\<open>os.remove\<close> was called.
\<close>

datatype pc = Start | Acquiring | Loading | Adding "string list" | Parsing
  | Done "exn + ResumeData"

datatype event = Create string | Acquire | Load | Index | Extract | Release | Cleanup bool

record job =
  upload :: UploadFile
  pc :: pc
  state :: ResumeState
  trace :: "event list"

subsection \<open>The stages (app/helpers.py)\<close>

text \<open>
  \<^verbatim>\<open>ingest_pdf\<close> up to the end of its first \<^verbatim>\<open>await\<close> (lines 42-49): the loader reads
  the file at \<^verbatim>\<open>state["pdf_path"]\<close> and the pages are split.
\<close>

definition ingest_pdf_load ::
  "collaborators \<Rightarrow> nat \<Rightarrow> (string \<rightharpoonup> string) \<Rightarrow> ResumeState \<Rightarrow> string + string list" where
  "ingest_pdf_load env i fs st =
     (case st ''pdf_path'' of
        None \<Rightarrow> Inl ''KeyError: pdf_path''
      | Some (Str p) \<Rightarrow>
          (case pdf_load env i (fs p) of
             Inl e \<Rightarrow> Inl e
           | Inr pages \<Rightarrow> Inr (split_documents env pages))
      | Some _ \<Rightarrow> Inl ''TypeError'')"

text \<open>
  The rest of \<^verbatim>\<open>ingest_pdf\<close> (lines 52-54): the splits are added to the vector store
  and the stage returns \<^verbatim>\<open>{"text_chunks": [doc.page_content for doc in splits]}\<close>.
  The result is the returned dictionary and the store.
\<close>

definition ingest_pdf_add ::
  "collaborators \<Rightarrow> nat \<Rightarrow> string list \<Rightarrow> string list \<Rightarrow> string + (ResumeState \<times> string list)" where
  "ingest_pdf_add env i store splits =
     (case add_documents env i store splits of
        Inl e \<Rightarrow> Inl e
      | Inr store' \<Rightarrow> Inr ([''text_chunks'' \<mapsto> StrList splits], store'))"

text \<open>\<^verbatim>\<open>parse_resume\<close> (lines 56-71).\<close>

definition parse_resume :: "collaborators \<Rightarrow> nat \<Rightarrow> ResumeState \<Rightarrow> string + ResumeState" where
  "parse_resume env i st =
     (case st ''text_chunks'' of
        None \<Rightarrow> Inl ''KeyError: text_chunks''
      | Some (StrList chunks) \<Rightarrow>
          (case chain_ainvoke env i (join_lines chunks) of
             Inl e \<Rightarrow> Inl e
           | Inr result \<Rightarrow> Inr [''parsed_data'' \<mapsto> Parsed result])
      | Some _ \<Rightarrow> Inl ''TypeError'')"

text \<open>
  The graph declared at the end of \<^verbatim>\<open>app/helpers.py\<close> (lines 90-99): its edges, and the
  nodes met when the edges are followed from the start node.
\<close>

definition workflow_edges :: "(string \<times> string) list" where
  "workflow_edges = [(''__start__'', ''ingest''), (''ingest'', ''parse''), (''parse'', ''__end__'')]"

fun follow :: "(string \<times> string) list \<Rightarrow> nat \<Rightarrow> string \<Rightarrow> string list" where
  "follow edges 0 node = []"
| "follow edges (Suc fuel) node =
     (case map_of edges node of
        None \<Rightarrow> []
      | Some next \<Rightarrow> if next = ''__end__'' then [] else next # follow edges fuel next)"

definition workflow_order :: "string list" where
  "workflow_order = follow workflow_edges (length workflow_edges) ''__start__''"

subsection \<open>One job (app/main.py, process_single_resume)\<close>

text \<open>
  Leaving the guarded region (lines 35-62) with the result \<open>r\<close>: \<^verbatim>\<open>async with\<close> gives
  the slot back, then the \<^verbatim>\<open>finally\<close> block removes the temporary file if it exists,
  and the task is finished. No suspension point lies in between.
\<close>

definition leave :: "exn + ResumeData \<Rightarrow> job \<Rightarrow> world \<Rightarrow> job \<times> world" where
  "leave r j w =
     (let p = temp_path (upload j);
          present = (files w p \<noteq> None)
      in (j\<lparr>pc := Done r, trace := trace j @ [Release, Cleanup present]\<rparr>,
          w\<lparr>semaphore := semaphore w + 1,
            files := (if present then (files w)(p := None) else files w)\<rparr>))"

text \<open>
  An exception \<open>e\<close> raised inside the guarded region (lines 55-58): it is replaced by an
  \<^verbatim>\<open>HTTPException\<close> with status 500.
\<close>

definition failed :: "string \<Rightarrow> job \<Rightarrow> world \<Rightarrow> job \<times> world" where
  "failed e j w =
     leave (Inl (HTTPException 500 (''Error processing '' @ filename (upload j) @ '': '' @ e))) j w"

text \<open>
  One uninterrupted piece of \<^verbatim>\<open>process_single_resume\<close> for job number \<open>i\<close>: from
  the point where the job is suspended to its next suspension point. A job waiting for the
  semaphore stays where it is while the counter is 0. The write of the temporary file
  (lines 32-33) is taken to succeed; these two lines stand before the \<^verbatim>\<open>try\<close>, so a
  fault of the file system while writing would end the job with that fault and without the
  \<^verbatim>\<open>finally\<close> block, and is not part of this model.
\<close>

definition process_single_resume :: "collaborators \<Rightarrow> nat \<Rightarrow> job \<Rightarrow> world \<Rightarrow> job \<times> world" where
  "process_single_resume env i j w =
     (case pc j of
        Start \<Rightarrow>
          if \<not> endswith (filename (upload j)) ''.pdf''
          then (j\<lparr>pc := Done (Inl (HTTPException 400
                        (''File '' @ filename (upload j) @ '' is not a PDF'')))\<rparr>, w)
          else (j\<lparr>pc := Acquiring, trace := trace j @ [Create (temp_path (upload j))]\<rparr>,
                w\<lparr>files := (files w)(temp_path (upload j) \<mapsto> content (upload j))\<rparr>)
      | Acquiring \<Rightarrow>
          if 0 < semaphore w
          then (j\<lparr>pc := Loading, state := initial_state (temp_path (upload j)),
                  trace := trace j @ [Acquire]\<rparr>,
                w\<lparr>semaphore := semaphore w - 1\<rparr>)
          else (j, w)
      | Loading \<Rightarrow>
          (case ingest_pdf_load env i (files w) (state j) of
             Inl e \<Rightarrow> failed e (j\<lparr>trace := trace j @ [Load]\<rparr>) w
           | Inr splits \<Rightarrow> (j\<lparr>pc := Adding splits, trace := trace j @ [Load]\<rparr>, w))
      | Adding splits \<Rightarrow>
          (case ingest_pdf_add env i (vector_store w) splits of
             Inl e \<Rightarrow> failed e (j\<lparr>trace := trace j @ [Index]\<rparr>) w
           | Inr (ingest_result, store') \<Rightarrow>
               (j\<lparr>pc := Parsing, state := state j ++ ingest_result,
                  trace := trace j @ [Index]\<rparr>,
                w\<lparr>vector_store := store'\<rparr>))
      | Parsing \<Rightarrow>
          (case parse_resume env i (state j) of
             Inl e \<Rightarrow> failed e (j\<lparr>trace := trace j @ [Extract]\<rparr>) w
           | Inr parse_result \<Rightarrow>
               (case parse_result ''parsed_data'' of
                  Some (Parsed d) \<Rightarrow> leave (Inr d) (j\<lparr>trace := trace j @ [Extract]\<rparr>) w
                | _ \<Rightarrow> failed ''KeyError: parsed_data'' (j\<lparr>trace := trace j @ [Extract]\<rparr>) w))
      | Done r \<Rightarrow> (j, w))"

subsection \<open>Many jobs at once\<close>

text \<open>
  The tasks of the event loop and what they share. A schedule is the list of the task
  numbers in the order in which the event loop resumes them; \<open>run\<close> follows it.
\<close>

record config =
  tasks :: "job list"
  shared :: world

definition step :: "collaborators \<Rightarrow> nat \<Rightarrow> config \<Rightarrow> config" where
  "step env i c =
     (if i < length (tasks c)
      then (case process_single_resume env i (tasks c ! i) (shared c) of
              (j', w') \<Rightarrow> \<lparr>tasks = (tasks c)[i := j'], shared = w'\<rparr>)
      else c)"

fun run :: "collaborators \<Rightarrow> nat list \<Rightarrow> config \<Rightarrow> config" where
  "run env [] c = c"
| "run env (i # sched) c = run env sched (step env i c)"

definition new_task :: "UploadFile \<Rightarrow> job" where
  "new_task f = \<lparr>upload = f, pc = Start, state = Map.empty, trace = []\<rparr>"

text \<open>Line 79: one task per file, in the order of the files.\<close>

definition spawn :: "UploadFile list \<Rightarrow> world \<Rightarrow> config" where
  "spawn fs w = \<lparr>tasks = map new_task fs, shared = w\<rparr>"

definition finished :: "job \<Rightarrow> bool" where
  "finished j = (case pc j of Done r \<Rightarrow> True | _ \<Rightarrow> False)"

definition outcome :: "job \<Rightarrow> (exn + ResumeData) option" where
  "outcome j = (case pc j of Done r \<Rightarrow> Some r | _ \<Rightarrow> None)"

text \<open>
  A job holds a slot of the semaphore while it is inside the body of
  \<^verbatim>\<open>async with semaphore\<close> (lines 37-53).
\<close>

definition holding :: "job \<Rightarrow> bool" where
  "holding j =
     (case pc j of Loading \<Rightarrow> True | Adding splits \<Rightarrow> True | Parsing \<Rightarrow> True | _ \<Rightarrow> False)"

text \<open>
  Line 80, \<^verbatim>\<open>asyncio.gather(*tasks, return_exceptions=True)\<close>: it returns once every
  task is finished, with the value or the exception of each task, in the order of the
  tasks. \<open>None\<close>: the schedule ends before every task is finished, and \<^verbatim>\<open>gather\<close>
  has not returned.
\<close>

fun collect_outcomes :: "job list \<Rightarrow> (exn + ResumeData) list option" where
  "collect_outcomes [] = Some []"
| "collect_outcomes (j # js) =
     (case outcome j of
        None \<Rightarrow> None
      | Some r \<Rightarrow> (case collect_outcomes js of None \<Rightarrow> None | Some rs \<Rightarrow> Some (r # rs)))"

definition gather ::
  "collaborators \<Rightarrow> nat list \<Rightarrow> UploadFile list \<Rightarrow> world \<Rightarrow> ((exn + ResumeData) list \<times> world) option" where
  "gather env sched fs w =
     (let c = run env sched (spawn fs w)
      in case collect_outcomes (tasks c) of
           None \<Rightarrow> None
         | Some results \<Rightarrow> Some (results, shared c))"

text \<open>Lines 83-89: the loop that keeps the results that are not exceptions.\<close>

fun final_results :: "(exn + ResumeData) list \<Rightarrow> ResumeData list \<Rightarrow> ResumeData list" where
  "final_results [] acc = acc"
| "final_results (Inl e # results) acc = final_results results acc"
| "final_results (Inr d # results) acc = final_results results (acc @ [d])"

text \<open>\<^verbatim>\<open>batch_upload_resumes\<close> (lines 70-91).\<close>

definition batch_upload_resumes ::
  "collaborators \<Rightarrow> nat list \<Rightarrow> UploadFile list \<Rightarrow> world \<Rightarrow> ((exn + ResumeData list) \<times> world) option" where
  "batch_upload_resumes env sched fs w =
     (if 100 < length fs
      then Some (Inl (HTTPException 400 ''Batch limit exceeded (max 100 files)''), w)
      else (case gather env sched fs w of
              None \<Rightarrow> None
            | Some (results, w') \<Rightarrow> Some (Inr (final_results results []), w')))"

text \<open>Lines 18-19: the semaphore is created with \<^verbatim>\<open>CONCURRENCY_LIMIT\<close> slots.\<close>

definition CONCURRENCY_LIMIT :: nat where
  "CONCURRENCY_LIMIT = 5"

definition initial_world :: world where
  "initial_world = \<lparr>files = Map.empty, semaphore = int CONCURRENCY_LIMIT, vector_store = []\<rparr>"

section \<open>Invariants and auxiliary notions\<close>

text \<open>The validation of line 26.\<close>

definition accepted :: "UploadFile \<Rightarrow> bool" where
  "accepted f = endswith (filename f) ''.pdf''"

text \<open>
  What holds of a job at each point of \<^verbatim>\<open>process_single_resume\<close>, whatever the other
  jobs do: the operations it has performed so far, and its state.
\<close>

definition job_ok :: "job \<Rightarrow> bool" where
  "job_ok j =
     (let p = temp_path (upload j) in
      case pc j of
        Start \<Rightarrow> trace j = []
      | Acquiring \<Rightarrow> accepted (upload j) \<and> trace j = [Create p]
      | Loading \<Rightarrow> accepted (upload j) \<and> trace j = [Create p, Acquire] \<and> state j = initial_state p
      | Adding splits \<Rightarrow>
          accepted (upload j) \<and> trace j = [Create p, Acquire, Load] \<and> state j = initial_state p
      | Parsing \<Rightarrow>
          accepted (upload j) \<and> trace j = [Create p, Acquire, Load, Index] \<and>
          (\<exists>splits. state j = initial_state p ++ [''text_chunks'' \<mapsto> StrList splits])
      | Done r \<Rightarrow>
          if accepted (upload j)
          then (\<exists>b st. trace j = [Create p, Acquire] @ st @ [Release, Cleanup b] \<and>
                  (st = [Load] \<or> st = [Load, Index] \<or> st = [Load, Index, Extract]) \<and>
                  (case r of
                     Inl e \<Rightarrow> status_code e = 500
                   | Inr d \<Rightarrow> st = [Load, Index, Extract]))
          else trace j = [] \<and>
               r = Inl (HTTPException 400 (''File '' @ filename (upload j) @ '' is not a PDF'')))"

definition all_ok :: "config \<Rightarrow> bool" where
  "all_ok c = (\<forall>j \<in> set (tasks c). job_ok j)"

text \<open>The number of jobs inside \<^verbatim>\<open>async with semaphore\<close>, and what the counter is then.\<close>

definition holders :: "config \<Rightarrow> nat" where
  "holders c = length (filter holding (tasks c))"

definition gate_inv :: "int \<Rightarrow> config \<Rightarrow> bool" where
  "gate_inv k c = (0 \<le> semaphore (shared c) \<and> semaphore (shared c) + int (holders c) = k)"

text \<open>
  The number of steps a job is from its end at most, and when a step of the job moves it:
  always, but for a job that waits for a slot while the counter is 0.
\<close>

definition remaining :: "job \<Rightarrow> nat" where
  "remaining j = (case pc j of Start \<Rightarrow> 5 | Acquiring \<Rightarrow> 4 | Loading \<Rightarrow> 3 | Adding splits \<Rightarrow> 2
                  | Parsing \<Rightarrow> 1 | Done r \<Rightarrow> 0)"

definition can_move :: "job \<Rightarrow> world \<Rightarrow> bool" where
  "can_move j w = (holding j \<or> finished j \<or> 0 < semaphore w)"

text \<open>Parts of a trace: the acquisitions and releases, the cleanups, the calls of the stages.\<close>

definition gate_events :: "event list \<Rightarrow> event list" where
  "gate_events t = filter (\<lambda>e. e = Acquire \<or> e = Release) t"

definition is_cleanup :: "event \<Rightarrow> bool" where
  "is_cleanup e = (case e of Cleanup b \<Rightarrow> True | _ \<Rightarrow> False)"

definition is_stage_call :: "event \<Rightarrow> bool" where
  "is_stage_call e = (e = Load \<or> e = Index \<or> e = Extract)"

text \<open>
  A job that has written its temporary file and not finished finds its own bytes there,
  and a finished job has removed the file itself; this holds of a job whose temporary path
  no other job uses.
\<close>

definition active :: "job \<Rightarrow> bool" where
  "active j = (pc j = Acquiring \<or> holding j)"

definition own_file :: "job \<Rightarrow> world \<Rightarrow> bool" where
  "own_file j w =
     ((active j \<longrightarrow> files w (temp_path (upload j)) = Some (content (upload j))) \<and>
      (finished j \<and> accepted (upload j) \<longrightarrow> last (trace j) = Cleanup True))"

text \<open>
  A schedule that gives every job, one after the other, five steps in a row: enough for a
  job that can take a slot to run from its start to its end.
\<close>

definition one_by_one :: "nat \<Rightarrow> nat list" where
  "one_by_one n = concat (map (replicate 5) [0..<n])"



text \<open>A job that returned a record.\<close>

definition succeeded :: "job \<Rightarrow> bool" where
  "succeeded j = (case outcome j of Some (Inr d) \<Rightarrow> True | _ \<Rightarrow> False)"

section \<open>Concrete batches\<close>

text \<open>The record the repository's test returns in place of the model's answer.\<close>

definition MOCK_RESUME :: ResumeData where
  "MOCK_RESUME =
     \<lparr>full_name = Some ''Mock Candidate'', email = Some ''mock@example.com'', phone = None,
      skills = [''Python'', ''Mocking'', ''AsyncIO''],
      experience = [\<lparr>role = Some ''Senior Dev'', company = Some ''Mock Corp'',
                      duration = Some ''2020-Present'', description = Some ''Led mock teams.''\<rparr>],
      education = [\<lparr>degree = Some ''BS CS'', institution = Some ''Mock University'',
                     year = Some ''2020''\<rparr>],
      summary = Some ''Experienced mock developer.''\<rparr>"

definition resume_of :: "string \<Rightarrow> ResumeData" where
  "resume_of text = MOCK_RESUME\<lparr>summary := Some text\<rparr>"

text \<open>
  Collaborators for the examples. The loader raises when there is no file at the path, as
  \<^verbatim>\<open>PyPDFLoader\<close> does, and on the body \<open>not a pdf\<close>; otherwise the file is one page.
  The splitter keeps the pages, the store appends, and the model answers with a record
  whose summary is the text it was given.
\<close>

definition example_env :: collaborators where
  "example_env =
     \<lparr>pdf_load = (\<lambda>i f. case f of
                            None \<Rightarrow> Inl ''File path is not a valid file or url''
                          | Some b \<Rightarrow> if b = ''not a pdf'' then Inl ''invalid pdf header'' else Inr [b]),
      split_documents = (\<lambda>pages. pages),
      add_documents = (\<lambda>i store docs. Inr (store @ docs)),
      chain_ainvoke = (\<lambda>i context. Inr (resume_of context))\<rparr>"

text \<open>The same collaborators, the call of job \<open>k\<close> to the vector store failing.\<close>

definition flaky_env :: "nat \<Rightarrow> collaborators" where
  "flaky_env k =
     example_env\<lparr>add_documents :=
       (\<lambda>i store docs. if i = k then Inl ''429 Too Many Requests'' else Inr (store @ docs))\<rparr>"

definition six_files :: "UploadFile list" where
  "six_files =
     [\<lparr>filename = ''a.pdf'', content = ''Ada''\<rparr>, \<lparr>filename = ''b.pdf'', content = ''Bob''\<rparr>,
      \<lparr>filename = ''c.pdf'', content = ''Cyd''\<rparr>, \<lparr>filename = ''d.pdf'', content = ''Dan''\<rparr>,
      \<lparr>filename = ''cv.pdf'', content = ''Eve''\<rparr>, \<lparr>filename = ''cv.pdf'', content = ''Fay''\<rparr>]"

text \<open>
  Every job starts and asks for a slot (job 5 finds none); jobs 0 to 4 load; job 4 reaches
  the vector store; job 0 runs to its end; job 5 gets its four steps; the others finish.
\<close>

definition six_schedule :: "nat list" where
  "six_schedule =
     [0, 0, 1, 1, 2, 2, 3, 3, 4, 4, 5, 5,
      0, 1, 2, 3, 4,
      4,
      0, 0,
      5, 5, 5, 5,
      1, 1, 2, 2, 3, 3, 4]"

definition twins :: "UploadFile list" where
  "twins = [\<lparr>filename = ''resume.pdf'', content = ''Ada''\<rparr>,
            \<lparr>filename = ''resume.pdf'', content = ''Grace''\<rparr>]"

definition mixed :: "UploadFile list" where
  "mixed = [\<lparr>filename = ''ada.pdf'', content = ''Ada''\<rparr>,
            \<lparr>filename = ''notes.txt'', content = ''Bob''\<rparr>,
            \<lparr>filename = ''broken.pdf'', content = ''not a pdf''\<rparr>]"

text \<open>
  Four files, the second rejected by its name and the third by the loader, and a schedule
  that runs the jobs from the last to the first: the job of the last file is finished
  before the job of the first file starts.
\<close>

definition four_files :: "UploadFile list" where
  "four_files = [\<lparr>filename = ''ada.pdf'', content = ''Ada''\<rparr>,
                 \<lparr>filename = ''notes.txt'', content = ''Bob''\<rparr>,
                 \<lparr>filename = ''broken.pdf'', content = ''not a pdf''\<rparr>,
                 \<lparr>filename = ''cyd.pdf'', content = ''Cyd''\<rparr>]"

definition last_first :: "nat list" where
  "last_first = [3, 3, 3, 3, 3, 2, 2, 2, 1, 0, 0, 0, 0, 0]"

section \<open>Round trip of the record format\<close>

lemma validate_optional_str_dump:
  "validate_optional_str (Some (dump_optional_str v)) = Some v"
  by (cases v) (simp_all add: dump_optional_str_def)

lemma validate_all_dump:
  assumes "\<And>x. f (g x) = Some x"
  shows "validate_all f (map g xs) = Some xs"
  by (induction xs) (simp_all add: assms)

lemma validate_Education_dump: "validate_Education (dump_Education e) = Some e"
  by (simp add: dump_Education_def validate_optional_str_dump)

lemma validate_Experience_dump: "validate_Experience (dump_Experience e) = Some e"
  by (simp add: dump_Experience_def validate_optional_str_dump)

text \<open>
  Claim C9. Dumping a \<open>ResumeData\<close> record to the record format and reading the result
  back gives the record itself, for every record: no field is lost or changed.
\<close>

theorem ResumeData_round_trip: "validate_ResumeData (dump_ResumeData r) = Some r"
  by (simp add: dump_ResumeData_def validate_optional_str_dump validate_all_dump
      validate_Education_dump validate_Experience_dump)

lemma step_length [simp]: "length (tasks (step env i c)) = length (tasks c)"
  by (simp add: step_def split: prod.split)

lemma step_other: "k \<noteq> i \<Longrightarrow> tasks (step env i c) ! k = tasks c ! k"
  by (simp add: step_def split: prod.split)

lemma step_self:
  "i < length (tasks c) \<Longrightarrow>
     tasks (step env i c) ! i = fst (process_single_resume env i (tasks c ! i) (shared c))"
  by (simp add: step_def split: prod.split)

lemma step_shared:
  "i < length (tasks c) \<Longrightarrow>
     shared (step env i c) = snd (process_single_resume env i (tasks c ! i) (shared c))"
  by (simp add: step_def split: prod.split)

lemma step_out_of_range: "\<not> i < length (tasks c) \<Longrightarrow> step env i c = c"
  by (simp add: step_def)

lemma run_length [simp]: "length (tasks (run env sched c)) = length (tasks c)"
  by (induction sched arbitrary: c) simp_all

lemma run_append: "run env (s1 @ s2) c = run env s2 (run env s1 c)"
  by (induction s1 arbitrary: c) simp_all

lemma run_invariant:
  assumes "P c" and "\<And>i c. P c \<Longrightarrow> P (step env i c)"
  shows "P (run env sched c)"
  using assms(1) by (induction sched arbitrary: c) (simp_all add: assms(2))

lemmas psr_defs = process_single_resume_def failed_def leave_def Let_def

lemma psr_upload [simp]: "upload (fst (process_single_resume env i j w)) = upload j"
  by (cases "pc j")
     (simp_all add: psr_defs split: sum.splits option.splits pyval.splits prod.splits)

lemma psr_finished:
  "finished j \<Longrightarrow> process_single_resume env i j w = (j, w)"
  by (cases "pc j") (simp_all add: psr_defs finished_def)

lemma job_ok_new_task: "job_ok (new_task f)"
  by (simp add: job_ok_def new_task_def)

lemma psr_job_ok:
  assumes "job_ok j"
  shows "job_ok (fst (process_single_resume env i j w))"
proof (cases "pc j")
  case Start
  with assms show ?thesis
    by (simp add: psr_defs job_ok_def accepted_def)
next
  case Acquiring
  with assms show ?thesis
    by (simp add: psr_defs job_ok_def)
next
  case Loading
  with assms show ?thesis
    by (simp add: psr_defs job_ok_def split: sum.splits)
next
  case (Adding splits)
  with assms show ?thesis
    by (auto simp add: psr_defs job_ok_def ingest_pdf_add_def split: sum.splits)
next
  case Parsing
  with assms show ?thesis
    by (auto simp add: psr_defs job_ok_def split: sum.splits option.splits pyval.splits)
next
  case (Done r)
  with assms show ?thesis
    by (simp add: psr_defs)
qed

lemma step_all_ok: "all_ok c \<Longrightarrow> all_ok (step env i c)"
proof (cases "i < length (tasks c)")
  case True
  assume ok: "all_ok c"
  from True ok have "job_ok (tasks c ! i)" by (simp add: all_ok_def)
  then have "job_ok (fst (process_single_resume env i (tasks c ! i) (shared c)))"
    by (rule psr_job_ok)
  with ok show ?thesis
    by (auto simp add: all_ok_def step_def split: prod.split dest!: set_update_subset_insert[THEN subsetD])
next
  case False
  assume "all_ok c"
  with False show ?thesis by (simp add: step_out_of_range)
qed

lemma spawn_all_ok: "all_ok (spawn fs w)"
  by (auto simp add: all_ok_def spawn_def job_ok_new_task)

lemma run_all_ok: "all_ok (run env sched (spawn fs w))"
  by (rule run_invariant[where P = all_ok]) (simp_all add: spawn_all_ok step_all_ok)

lemma step_upload: "upload (tasks (step env i c) ! k) = upload (tasks c ! k)"
proof (cases "k = i \<and> i < length (tasks c)")
  case True
  then show ?thesis by (simp add: step_self)
next
  case False
  then show ?thesis by (cases "k = i") (simp_all add: step_other step_out_of_range)
qed

lemma run_upload_same: "upload (tasks (run env sched c) ! k) = upload (tasks c ! k)"
  by (induction sched arbitrary: c) (simp_all add: step_upload)

lemma run_upload:
  "i < length fs \<Longrightarrow> upload (tasks (run env sched (spawn fs w)) ! i) = fs ! i"
  by (simp add: run_upload_same) (simp add: spawn_def new_task_def)

lemma run_job_ok:
  "i < length fs \<Longrightarrow> job_ok (tasks (run env sched (spawn fs w)) ! i)"
proof -
  assume "i < length fs"
  then have "tasks (run env sched (spawn fs w)) ! i \<in> set (tasks (run env sched (spawn fs w)))"
    by (simp add: spawn_def)
  with run_all_ok[of env sched fs w] show ?thesis by (simp add: all_ok_def)
qed

lemma filter_length_update:
  "i < length xs \<Longrightarrow>
     length (filter P (xs[i := y])) + (if P (xs ! i) then 1 else 0) =
       length (filter P xs) + (if P y then 1 else 0)"
proof (induction xs arbitrary: i)
  case Nil
  then show ?case by simp
next
  case (Cons x xs)
  show ?case
  proof (cases i)
    case 0
    then show ?thesis by simp
  next
    case (Suc n)
    with Cons.prems have "n < length xs" by simp
    from Cons.IH[OF this] Suc show ?thesis by simp
  qed
qed

lemma psr_semaphore:
  "semaphore (snd (process_single_resume env i j w)) +
       (if holding (fst (process_single_resume env i j w)) then 1 else 0) =
     semaphore w + (if holding j then 1 else 0)"
  by (cases "pc j")
     (simp_all add: psr_defs holding_def split: sum.splits option.splits pyval.splits prod.splits)

lemma psr_semaphore_nonneg:
  "0 \<le> semaphore w \<Longrightarrow> 0 \<le> semaphore (snd (process_single_resume env i j w))"
  by (cases "pc j")
     (simp_all add: psr_defs split: sum.splits option.splits pyval.splits prod.splits)

lemma step_gate_inv: "gate_inv k c \<Longrightarrow> gate_inv k (step env i c)"
proof (cases "i < length (tasks c)")
  case True
  assume inv: "gate_inv k c"
  let ?j' = "fst (process_single_resume env i (tasks c ! i) (shared c))"
  have "tasks (step env i c) = (tasks c)[i := ?j']"
    using True by (simp add: step_def split: prod.split)
  then have "holders (step env i c) + (if holding (tasks c ! i) then 1 else 0) =
          holders c + (if holding ?j' then 1 else 0)"
    using filter_length_update[OF True, of holding ?j'] by (simp add: holders_def)
  then have "int (holders (step env i c)) + (if holding (tasks c ! i) then 1 else 0) =
          int (holders c) + (if holding ?j' then 1 else 0)"
    by (simp split: if_splits)
  moreover note psr_semaphore[of env i "tasks c ! i" "shared c"]
    psr_semaphore_nonneg[of "shared c" env i "tasks c ! i"]
  ultimately show ?thesis
    using inv True by (simp add: gate_inv_def step_shared split: if_splits)
next
  case False
  assume "gate_inv k c"
  with False show ?thesis by (simp add: step_out_of_range)
qed

lemma holders_spawn: "holders (spawn fs w) = 0"
  by (simp add: holders_def spawn_def new_task_def comp_def holding_def)

lemma run_gate_inv:
  "0 \<le> semaphore w \<Longrightarrow> gate_inv (semaphore w) (run env sched (spawn fs w))"
  by (rule run_invariant[where P = "gate_inv (semaphore w)"])
     (simp_all add: gate_inv_def holders_spawn step_gate_inv[unfolded gate_inv_def], simp add: spawn_def)

lemma psr_progress:
  assumes "can_move j w"
  shows "remaining (fst (process_single_resume env i j w)) \<le> remaining j - 1 \<and>
         can_move (fst (process_single_resume env i j w)) (snd (process_single_resume env i j w))"
  using assms
  by (cases "pc j")
     (simp_all add: psr_defs can_move_def holding_def finished_def remaining_def ingest_pdf_add_def
        split: sum.splits option.splits pyval.splits prod.splits)

lemma remaining_0: "remaining j = 0 \<longleftrightarrow> finished j"
  by (cases "pc j") (simp_all add: remaining_def finished_def)

lemma drive:
  "i < length (tasks c) \<Longrightarrow> remaining (tasks c ! i) \<le> n \<Longrightarrow> can_move (tasks c ! i) (shared c) \<Longrightarrow>
     finished (tasks (run env (replicate n i) c) ! i)"
proof (induction n arbitrary: c)
  case 0
  then show ?case by (simp add: remaining_0)
next
  case (Suc n)
  from psr_progress[OF Suc.prems(3), of env i] Suc.prems(1)
  have r: "remaining (tasks (step env i c) ! i) \<le> remaining (tasks c ! i) - 1"
    and m: "can_move (tasks (step env i c) ! i) (shared (step env i c))"
    by (simp_all add: step_self step_shared)
  from r Suc.prems(2) have "remaining (tasks (step env i c) ! i) \<le> n" by linarith
  with m Suc.IH[of "step env i c"] Suc.prems(1) show ?case by simp
qed

lemma holding_remaining: "holding j \<Longrightarrow> remaining j \<le> 3"
  by (cases "pc j") (simp_all add: remaining_def holding_def)

lemma drive_holding:
  assumes "i < length (tasks c)" and "holding (tasks c ! i)"
  shows "finished (tasks (run env [i, i, i] c) ! i)"
proof -
  have "replicate 3 i = [i, i, i]" by (simp add: numeral_3_eq_3)
  with drive[of i c 3 env] assms show ?thesis
    by (simp add: holding_remaining can_move_def del: run.simps)
qed

lemma job_ok_gate_events:
  "job_ok j \<Longrightarrow>
     gate_events (trace j) =
       (if holding j then [Acquire]
        else if finished j \<and> accepted (upload j) then [Acquire, Release]
        else [])"
  by (cases "pc j")
     (auto simp add: job_ok_def holding_def finished_def gate_events_def Let_def split: if_splits)

lemma step_finished_same:
  "finished (tasks c ! i) \<Longrightarrow> tasks (step env k c) ! i = tasks c ! i"
proof (cases "k = i \<and> i < length (tasks c)")
  case True
  assume "finished (tasks c ! i)"
  with True show ?thesis by (simp add: step_self psr_finished)
next
  case False
  then show ?thesis by (cases "k = i") (simp_all add: step_other step_out_of_range)
qed

lemma run_finished_same:
  "finished (tasks c ! i) \<Longrightarrow> tasks (run env sched c) ! i = tasks c ! i"
  by (induction sched arbitrary: c) (simp_all add: step_finished_same)

lemma run_snoc: "run env (sched @ [i]) c = step env i (run env sched c)"
  by (simp add: run_append)

lemma job_ok_step:
  assumes "i < length fs"
  shows "job_ok (tasks (step env k (run env sched (spawn fs w))) ! i)"
  using run_job_ok[OF assms, of env "sched @ [k]" w] by (simp add: run_snoc)

text \<open>
  Claim C3. Let the semaphore be created with \<open>c\<close> slots, for any \<open>c\<close>, and take any
  number of files, any answers of the collaborators and any order in which the event loop
  resumes the jobs. In every configuration that is reached: at most \<open>c\<close> jobs are inside
  \<^verbatim>\<open>async with semaphore\<close>; the counter is at least 0 and at most \<open>c\<close>, and it is
  \<open>c\<close> less the number of those jobs; the acquisitions and releases of a job are
  \<open>Acquire\<close> alone exactly while it is inside, \<open>Acquire, Release\<close> once it has finished
  after passing the validation, and none otherwise; and a job that is inside leaves, with
  its release made, within three steps of its own, whatever the collaborators answer.
\<close>

theorem gate_never_over_capacity:
  fixes c :: nat
  shows "let cfg = run env sched (spawn fs (w\<lparr>semaphore := int c\<rparr>)) in
     length (filter holding (tasks cfg)) \<le> c \<and>
     0 \<le> semaphore (shared cfg) \<and> semaphore (shared cfg) \<le> int c \<and>
     semaphore (shared cfg) = int c - int (length (filter holding (tasks cfg))) \<and>
     (\<forall>j \<in> set (tasks cfg).
        gate_events (trace j) =
          (if holding j then [Acquire]
           else if finished j \<and> endswith (filename (upload j)) ''.pdf'' then [Acquire, Release]
           else [])) \<and>
     (\<forall>i < length (tasks cfg). holding (tasks cfg ! i) \<longrightarrow>
        gate_events (trace (tasks (run env [i, i, i] cfg) ! i)) = [Acquire, Release])"
proof -
  define v where "v = w\<lparr>semaphore := int c\<rparr>"
  define cfg where "cfg = run env sched (spawn fs v)"
  have g: "gate_inv (int c) cfg"
    using run_gate_inv[of v env sched fs] by (simp add: cfg_def v_def)
  have ok: "all_ok cfg" unfolding cfg_def by (rule run_all_ok)
  have len: "length (tasks cfg) = length fs" by (simp add: cfg_def spawn_def)
  have 1: "length (filter holding (tasks cfg)) \<le> c"
    and 2: "0 \<le> semaphore (shared cfg)" and 3: "semaphore (shared cfg) \<le> int c"
    and 4: "semaphore (shared cfg) = int c - int (length (filter holding (tasks cfg)))"
    using g by (simp_all add: gate_inv_def holders_def)
  have 5: "\<forall>j \<in> set (tasks cfg).
        gate_events (trace j) =
          (if holding j then [Acquire]
           else if finished j \<and> endswith (filename (upload j)) ''.pdf'' then [Acquire, Release]
           else [])"
    using ok job_ok_gate_events by (simp add: all_ok_def accepted_def)
  have 6: "\<forall>i < length (tasks cfg). holding (tasks cfg ! i) \<longrightarrow>
        gate_events (trace (tasks (run env [i, i, i] cfg) ! i)) = [Acquire, Release]"
  proof (intro allI impI)
    fix i assume i: "i < length (tasks cfg)" and h: "holding (tasks cfg ! i)"
    let ?j = "tasks (run env [i, i, i] cfg) ! i"
    have fin: "finished ?j" using i h by (rule drive_holding)
    have "run env [i, i, i] cfg = run env (sched @ [i, i, i]) (spawn fs v)"
      by (simp only: run_append cfg_def)
    with i len have jok: "job_ok ?j" by (simp only: run_job_ok)
    have "job_ok (tasks cfg ! i)" using i len by (simp add: cfg_def run_job_ok)
    with h have "accepted (upload (tasks cfg ! i))"
      by (cases "pc (tasks cfg ! i)") (simp_all add: job_ok_def holding_def Let_def)
    then have acc: "accepted (upload ?j)" by (simp only: run_upload_same)
    from fin have "\<not> holding ?j"
      by (cases "pc ?j") (simp_all add: finished_def holding_def)
    with job_ok_gate_events[OF jok] fin acc show "gate_events (trace ?j) = [Acquire, Release]"
      by (simp del: run.simps)
  qed
  from 1 2 3 4 5 6 show ?thesis
    unfolding Let_def cfg_def[symmetric] v_def[symmetric] by blast
qed

lemma job_ok_accepted_trace:
  assumes "job_ok j" and "accepted (upload j)"
  shows "prefix (filter (\<lambda>e. e = Create (temp_path (upload j)) \<or> is_stage_call e) (trace j))
           [Create (temp_path (upload j)), Load, Index, Extract]"
    and "prefix (filter is_stage_call (trace j)) [Load, Index, Extract]"
    and "finished j \<Longrightarrow> length (filter is_cleanup (trace j)) = 1 \<and> is_cleanup (last (trace j))"
    and "\<not> finished j \<Longrightarrow> filter is_cleanup (trace j) = []"
  using assms
  by (cases "pc j";
      auto simp add: job_ok_def Let_def is_stage_call_def is_cleanup_def finished_def)+

lemma job_ok_rejected:
  assumes "job_ok j" and "\<not> accepted (upload j)"
  shows "trace j = []" and "\<not> holding j"
    and "pc j = Start \<or>
         pc j = Done (Inl (HTTPException 400 (''File '' @ filename (upload j) @ '' is not a PDF'')))"
  using assms by (cases "pc j"; simp add: job_ok_def Let_def holding_def)+

lemma psr_rejects:
  assumes "\<not> accepted (upload j)" and "pc j = Start"
  shows "process_single_resume env i j w =
           (j\<lparr>pc := Done (Inl (HTTPException 400 (''File '' @ filename (upload j) @ '' is not a PDF'')))\<rparr>, w)"
  using assms by (simp add: psr_defs accepted_def)

lemma psr_leaves_no_file:
  assumes "\<not> finished j" and "finished (fst (process_single_resume env i j w))"
    and "accepted (upload j)"
  shows "files (snd (process_single_resume env i j w)) (temp_path (upload j)) = None"
  using assms
  by (cases "pc j")
     (auto simp add: psr_defs finished_def accepted_def
        split: sum.splits option.splits pyval.splits prod.splits if_splits)

lemma psr_files_other:
  "q \<noteq> temp_path (upload j) \<Longrightarrow> files (snd (process_single_resume env i j w)) q = files w q"
  by (cases "pc j")
     (simp_all add: psr_defs split: sum.splits option.splits pyval.splits prod.splits)

lemma psr_own_file:
  assumes "own_file j w" and "job_ok j"
  shows "own_file (fst (process_single_resume env i j w)) (snd (process_single_resume env i j w))"
  using assms
  by (cases "pc j")
     (auto simp add: psr_defs own_file_def active_def holding_def finished_def accepted_def
        job_ok_def ingest_pdf_add_def
        split: sum.splits option.splits pyval.splits prod.splits if_splits)

lemma own_file_other:
  assumes "own_file j w" and "files w' (temp_path (upload j)) = files w (temp_path (upload j))"
  shows "own_file j w'"
  using assms by (simp add: own_file_def)

lemma run_own_file:
  assumes i: "i < length fs"
    and u: "\<forall>k < length fs. k \<noteq> i \<longrightarrow> filename (fs ! k) \<noteq> filename (fs ! i)"
  shows "own_file (tasks (run env sched (spawn fs w)) ! i) (shared (run env sched (spawn fs w)))"
proof -
  let ?P = "\<lambda>c. length (tasks c) = length fs \<and> (\<forall>m < length fs. upload (tasks c ! m) = fs ! m) \<and>
                 all_ok c \<and> own_file (tasks c ! i) (shared c)"
  have "?P (run env sched (spawn fs w))"
  proof (rule run_invariant[where P = ?P])
    show "?P (spawn fs w)"
      using i by (simp add: spawn_all_ok)
        (simp add: spawn_def new_task_def own_file_def active_def holding_def finished_def)
  next
    fix k and c :: config
    assume P: "?P c"
    then have len: "length (tasks c) = length fs"
      and up: "\<forall>m < length fs. upload (tasks c ! m) = fs ! m"
      and ok: "all_ok c" and own: "own_file (tasks c ! i) (shared c)"
      by simp_all
    have own': "own_file (tasks (step env k c) ! i) (shared (step env k c))"
    proof (cases "k < length (tasks c)")
      case False
      with own show ?thesis by (simp add: step_out_of_range)
    next
      case True
      show ?thesis
      proof (cases "k = i")
        case True
        from i len ok have "job_ok (tasks c ! i)" by (simp add: all_ok_def)
        from psr_own_file[OF own this, of env i] i len True show ?thesis
          by (simp add: step_self step_shared)
      next
        case False
        from True len u up i False
        have "temp_path (upload (tasks c ! i)) \<noteq> temp_path (upload (tasks c ! k))"
          by (simp add: temp_path_def) metis
        from psr_files_other[OF this, of env k "shared c"] True
        have "files (shared (step env k c)) (temp_path (upload (tasks c ! i))) =
              files (shared c) (temp_path (upload (tasks c ! i)))"
          by (simp add: step_shared)
        from own_file_other[OF own this] False show ?thesis by (simp add: step_other)
      qed
    qed
    from len up ok own' show "?P (step env k c)"
      by (simp add: step_upload step_all_ok)
  qed
  then show ?thesis by simp
qed

text \<open>
  What the guarded region of lines 35-62 does give. Take any batch, any answers of the
  collaborators, any schedule, and a job whose file name passes the validation. The job
  writes its temporary file before it calls the loader, the vector store or the model, and
  once. A job that is not finished has not run the \<^verbatim>\<open>finally\<close> block; a finished job
  has run the block exactly once, as the last thing it did, and the step that finishes the
  job leaves no file at the path of its temporary file. Whether the job's file is there when
  its stages run, and whether the block has anything to remove, depends on the other jobs:
  it is so when no other file of the batch has the job's file name.
\<close>

lemma finally_block_runs_once:
  "let cfg = run env sched (spawn fs w) in
   \<forall>i < length fs. endswith (filename (fs ! i)) ''.pdf'' \<longrightarrow>
     (let j = tasks cfg ! i; p = temp_path (fs ! i) in
        prefix (filter (\<lambda>e. e = Create p \<or> is_stage_call e) (trace j)) [Create p, Load, Index, Extract] \<and>
        (\<not> finished j \<longrightarrow> filter is_cleanup (trace j) = []) \<and>
        (finished j \<longrightarrow> length (filter is_cleanup (trace j)) = 1 \<and> is_cleanup (last (trace j))) \<and>
        (\<not> finished j \<and> finished (tasks (step env i cfg) ! i) \<longrightarrow>
           files (shared (step env i cfg)) p = None) \<and>
        ((\<forall>k < length fs. k \<noteq> i \<longrightarrow> filename (fs ! k) \<noteq> filename (fs ! i)) \<longrightarrow>
           (pc j = Loading \<longrightarrow> files (shared cfg) p = Some (content (fs ! i))) \<and>
           (finished j \<longrightarrow> last (trace j) = Cleanup True)))"
proof -
  define cfg where "cfg = run env sched (spawn fs w)"
  have "prefix (filter (\<lambda>e. e = Create (temp_path (fs ! i)) \<or> is_stage_call e) (trace (tasks cfg ! i)))
          [Create (temp_path (fs ! i)), Load, Index, Extract] \<and>
        (\<not> finished (tasks cfg ! i) \<longrightarrow> filter is_cleanup (trace (tasks cfg ! i)) = []) \<and>
        (finished (tasks cfg ! i) \<longrightarrow>
           length (filter is_cleanup (trace (tasks cfg ! i))) = 1 \<and>
           is_cleanup (last (trace (tasks cfg ! i)))) \<and>
        (\<not> finished (tasks cfg ! i) \<and> finished (tasks (step env i cfg) ! i) \<longrightarrow>
           files (shared (step env i cfg)) (temp_path (fs ! i)) = None) \<and>
        ((\<forall>k < length fs. k \<noteq> i \<longrightarrow> filename (fs ! k) \<noteq> filename (fs ! i)) \<longrightarrow>
           (pc (tasks cfg ! i) = Loading \<longrightarrow>
              files (shared cfg) (temp_path (fs ! i)) = Some (content (fs ! i))) \<and>
           (finished (tasks cfg ! i) \<longrightarrow> last (trace (tasks cfg ! i)) = Cleanup True))"
    if i: "i < length fs" and a: "endswith (filename (fs ! i)) ''.pdf''" for i
  proof -
    have ok: "job_ok (tasks cfg ! i)" using i by (simp add: cfg_def run_job_ok)
    have up: "upload (tasks cfg ! i) = fs ! i" using i by (simp add: cfg_def run_upload)
    have acc: "accepted (upload (tasks cfg ! i))" using a up by (simp add: accepted_def)
    have len: "i < length (tasks cfg)" using i by (simp add: cfg_def spawn_def)
    have own: "(pc (tasks cfg ! i) = Loading \<longrightarrow>
              files (shared cfg) (temp_path (fs ! i)) = Some (content (fs ! i))) \<and>
           (finished (tasks cfg ! i) \<longrightarrow> last (trace (tasks cfg ! i)) = Cleanup True)"
      if "\<forall>k < length fs. k \<noteq> i \<longrightarrow> filename (fs ! k) \<noteq> filename (fs ! i)"
      using run_own_file[OF i that, of env sched w] acc
      by (simp add: cfg_def[symmetric] own_file_def active_def holding_def up)
    from job_ok_accepted_trace[OF ok acc] psr_leaves_no_file[of "tasks cfg ! i" env i "shared cfg"] acc own
    show ?thesis
      by (simp add: up step_self[OF len] step_shared[OF len])
  qed
  then show ?thesis
    unfolding Let_def cfg_def[symmetric] by blast
qed

text \<open>
  Claim C5. A job whose file name does not end in \<^verbatim>\<open>.pdf\<close> never does anything but
  raise the exception with status 400: whatever the schedule, its trace is empty (no
  temporary file created, no slot of the semaphore taken, no collaborator called), it is
  never at the semaphore nor inside the guarded region, and the step that rejects it leaves
  the shared state as it was. A batch of more than 100 files is answered with the
  exception with status 400 and the shared state unchanged: no task is run.
\<close>

theorem rejection_before_any_work:
  "(let cfg = run env sched (spawn fs w) in
    \<forall>i < length fs. \<not> endswith (filename (fs ! i)) ''.pdf'' \<longrightarrow>
      (let j = tasks cfg ! i;
           rejection = Done (Inl (HTTPException 400 (''File '' @ filename (fs ! i) @ '' is not a PDF'')))
       in trace j = [] \<and> \<not> holding j \<and> (pc j = Start \<or> pc j = rejection) \<and>
          (pc j = Start \<longrightarrow>
             pc (tasks (step env i cfg) ! i) = rejection \<and> shared (step env i cfg) = shared cfg))) \<and>
   (100 < length fs \<longrightarrow>
      batch_upload_resumes env sched fs w =
        Some (Inl (HTTPException 400 ''Batch limit exceeded (max 100 files)''), w))"
proof -
  define cfg where "cfg = run env sched (spawn fs w)"
  have "trace (tasks cfg ! i) = [] \<and> \<not> holding (tasks cfg ! i) \<and>
        (pc (tasks cfg ! i) = Start \<or>
         pc (tasks cfg ! i) = Done (Inl (HTTPException 400 (''File '' @ filename (fs ! i) @ '' is not a PDF'')))) \<and>
        (pc (tasks cfg ! i) = Start \<longrightarrow>
           pc (tasks (step env i cfg) ! i) =
             Done (Inl (HTTPException 400 (''File '' @ filename (fs ! i) @ '' is not a PDF''))) \<and>
           shared (step env i cfg) = shared cfg)"
    if i: "i < length fs" and a: "\<not> endswith (filename (fs ! i)) ''.pdf''" for i
  proof -
    have ok: "job_ok (tasks cfg ! i)" using i by (simp add: cfg_def run_job_ok)
    have up: "upload (tasks cfg ! i) = fs ! i" using i by (simp add: cfg_def run_upload)
    have acc: "\<not> accepted (upload (tasks cfg ! i))" using a up by (simp add: accepted_def)
    have len: "i < length (tasks cfg)" using i by (simp add: cfg_def spawn_def)
    from job_ok_rejected[OF ok acc] psr_rejects[OF acc, of env i "shared cfg"]
    show ?thesis
      by (auto simp add: up step_self[OF len] step_shared[OF len])
  qed
  moreover have "100 < length fs \<longrightarrow>
      batch_upload_resumes env sched fs w =
        Some (Inl (HTTPException 400 ''Batch limit exceeded (max 100 files)''), w)"
    by (simp add: batch_upload_resumes_def)
  ultimately show ?thesis
    unfolding Let_def cfg_def[symmetric] by blast
qed

lemma workflow_order_eq: "workflow_order = [''ingest'', ''parse'']"
  by (simp add: workflow_order_def workflow_edges_def)

lemma psr_adding:
  assumes "pc j = Adding splits" and "add_documents env i (vector_store w) splits = Inr store'"
  shows "process_single_resume env i j w =
           (j\<lparr>pc := Parsing, state := state j ++ [''text_chunks'' \<mapsto> StrList splits],
              trace := trace j @ [Index]\<rparr>,
            w\<lparr>vector_store := store'\<rparr>)"
  using assms by (simp add: psr_defs ingest_pdf_add_def)

lemma parse_resume_merged:
  "parse_resume env i (st ++ [''text_chunks'' \<mapsto> StrList splits]) =
     (case chain_ainvoke env i (join_lines splits) of
        Inl e \<Rightarrow> Inl e
      | Inr d \<Rightarrow> Inr [''parsed_data'' \<mapsto> Parsed d])"
  by (simp add: parse_resume_def)

lemma psr_loading_fails:
  assumes "pc j = Loading" and "ingest_pdf_load env i (files w) (state j) = Inl e"
  shows "pc (fst (process_single_resume env i j w)) =
           Done (Inl (HTTPException 500 (''Error processing '' @ filename (upload j) @ '': '' @ e)))"
    and "trace (fst (process_single_resume env i j w)) =
           trace j @ [Load, Release, Cleanup (files w (temp_path (upload j)) \<noteq> None)]"
  using assms by (simp_all add: psr_defs)

lemma psr_adding_fails:
  assumes "pc j = Adding splits" and "ingest_pdf_add env i (vector_store w) splits = Inl e"
  shows "pc (fst (process_single_resume env i j w)) =
           Done (Inl (HTTPException 500 (''Error processing '' @ filename (upload j) @ '': '' @ e)))"
    and "trace (fst (process_single_resume env i j w)) =
           trace j @ [Index, Release, Cleanup (files w (temp_path (upload j)) \<noteq> None)]"
  using assms by (simp_all add: psr_defs)

lemma psr_parsing_fails:
  assumes "pc j = Parsing" and "parse_resume env i (state j) = Inl e"
  shows "pc (fst (process_single_resume env i j w)) =
           Done (Inl (HTTPException 500 (''Error processing '' @ filename (upload j) @ '': '' @ e)))"
    and "trace (fst (process_single_resume env i j w)) =
           trace j @ [Extract, Release, Cleanup (files w (temp_path (upload j)) \<noteq> None)]"
  using assms by (simp_all add: psr_defs)

lemma job_ok_stage_calls:
  assumes "job_ok j"
  shows "pc j = Loading \<Longrightarrow> filter is_stage_call (trace j) = []"
    and "pc j = Adding splits \<Longrightarrow> filter is_stage_call (trace j) = [Load]"
    and "pc j = Parsing \<Longrightarrow> filter is_stage_call (trace j) = [Load, Index]"
  using assms by (simp_all add: job_ok_def Let_def is_stage_call_def)

text \<open>
  Claim C6. The graph of \<^verbatim>\<open>app/helpers.py\<close> declares the order ingest, parse. For
  every job of every batch, under every schedule and whatever the collaborators answer:
  the stage calls it has made form a beginning of load, index, extract, so the
  load-and-index stage runs first and the extract stage after it; when the load-and-index
  stage returns its update, the update is merged into the state before the extract stage,
  which reads the merged value; when a stage raises (the load-and-index stage at the loader
  or at the vector store, or the extract stage), the job is finished by that very step
  with the exception of status 500 and has called no later stage; and a finished job is
  never changed again by any schedule, so it runs no further stage.
\<close>

theorem stages_run_in_declared_order:
  "workflow_order = [''ingest'', ''parse''] \<and>
   (let cfg = run env sched (spawn fs w) in
    \<forall>i < length fs.
      (let j = tasks cfg ! i; j' = tasks (step env i cfg) ! i;
           failure = (\<lambda>e. Done (Inl (HTTPException 500
                              (''Error processing '' @ filename (fs ! i) @ '': '' @ e))))
       in prefix (filter is_stage_call (trace j)) [Load, Index, Extract] \<and>
          (\<forall>splits store'.
             pc j = Adding splits \<and>
             add_documents env i (vector_store (shared cfg)) splits = Inr store' \<longrightarrow>
               pc j' = Parsing \<and>
               state j' = state j ++ [''text_chunks'' \<mapsto> StrList splits] \<and>
               parse_resume env i (state j') =
                 (case chain_ainvoke env i (join_lines splits) of
                    Inl e \<Rightarrow> Inl e
                  | Inr d \<Rightarrow> Inr [''parsed_data'' \<mapsto> Parsed d])) \<and>
          (\<forall>e. pc j = Loading \<and> ingest_pdf_load env i (files (shared cfg)) (state j) = Inl e \<longrightarrow>
               pc j' = failure e \<and> filter is_stage_call (trace j') = [Load]) \<and>
          (\<forall>splits e.
             pc j = Adding splits \<and>
             ingest_pdf_add env i (vector_store (shared cfg)) splits = Inl e \<longrightarrow>
               pc j' = failure e \<and> filter is_stage_call (trace j') = [Load, Index]) \<and>
          (\<forall>e. pc j = Parsing \<and> parse_resume env i (state j) = Inl e \<longrightarrow>
               pc j' = failure e \<and> filter is_stage_call (trace j') = [Load, Index, Extract]) \<and>
          (finished j \<longrightarrow> (\<forall>sched'. tasks (run env sched' cfg) ! i = j))))"
proof -
  define cfg where "cfg = run env sched (spawn fs w)"
  have "prefix (filter is_stage_call (trace (tasks cfg ! i))) [Load, Index, Extract] \<and>
        (\<forall>splits store'.
           pc (tasks cfg ! i) = Adding splits \<and>
           add_documents env i (vector_store (shared cfg)) splits = Inr store' \<longrightarrow>
             pc (tasks (step env i cfg) ! i) = Parsing \<and>
             state (tasks (step env i cfg) ! i) =
               state (tasks cfg ! i) ++ [''text_chunks'' \<mapsto> StrList splits] \<and>
             parse_resume env i (state (tasks (step env i cfg) ! i)) =
               (case chain_ainvoke env i (join_lines splits) of
                  Inl e \<Rightarrow> Inl e
                | Inr d \<Rightarrow> Inr [''parsed_data'' \<mapsto> Parsed d])) \<and>
        (\<forall>e. pc (tasks cfg ! i) = Loading \<and>
             ingest_pdf_load env i (files (shared cfg)) (state (tasks cfg ! i)) = Inl e \<longrightarrow>
             pc (tasks (step env i cfg) ! i) =
               Done (Inl (HTTPException 500 (''Error processing '' @ filename (fs ! i) @ '': '' @ e))) \<and>
             filter is_stage_call (trace (tasks (step env i cfg) ! i)) = [Load]) \<and>
        (\<forall>splits e.
           pc (tasks cfg ! i) = Adding splits \<and>
           ingest_pdf_add env i (vector_store (shared cfg)) splits = Inl e \<longrightarrow>
             pc (tasks (step env i cfg) ! i) =
               Done (Inl (HTTPException 500 (''Error processing '' @ filename (fs ! i) @ '': '' @ e))) \<and>
             filter is_stage_call (trace (tasks (step env i cfg) ! i)) = [Load, Index]) \<and>
        (\<forall>e. pc (tasks cfg ! i) = Parsing \<and> parse_resume env i (state (tasks cfg ! i)) = Inl e \<longrightarrow>
             pc (tasks (step env i cfg) ! i) =
               Done (Inl (HTTPException 500 (''Error processing '' @ filename (fs ! i) @ '': '' @ e))) \<and>
             filter is_stage_call (trace (tasks (step env i cfg) ! i)) = [Load, Index, Extract]) \<and>
        (finished (tasks cfg ! i) \<longrightarrow> (\<forall>sched'. tasks (run env sched' cfg) ! i = tasks cfg ! i))"
    if i: "i < length fs" for i
  proof -
    have ok: "job_ok (tasks cfg ! i)" using i by (simp add: cfg_def run_job_ok)
    have up: "upload (tasks cfg ! i) = fs ! i" using i by (simp add: cfg_def run_upload)
    have len: "i < length (tasks cfg)" using i by (simp add: cfg_def spawn_def)
    have 1: "prefix (filter is_stage_call (trace (tasks cfg ! i))) [Load, Index, Extract]"
    proof (cases "accepted (upload (tasks cfg ! i))")
      case True
      with ok show ?thesis by (rule job_ok_accepted_trace(2))
    next
      case False
      with ok have "trace (tasks cfg ! i) = []" by (rule job_ok_rejected(1))
      then show ?thesis by simp
    qed
    have 2: "pc (tasks (step env i cfg) ! i) = Parsing \<and>
             state (tasks (step env i cfg) ! i) =
               state (tasks cfg ! i) ++ [''text_chunks'' \<mapsto> StrList splits] \<and>
             parse_resume env i (state (tasks (step env i cfg) ! i)) =
               (case chain_ainvoke env i (join_lines splits) of
                  Inl e \<Rightarrow> Inl e
                | Inr d \<Rightarrow> Inr [''parsed_data'' \<mapsto> Parsed d])"
      if "pc (tasks cfg ! i) = Adding splits"
        and "add_documents env i (vector_store (shared cfg)) splits = Inr store'"
      for splits store'
      using psr_adding[OF that] parse_resume_merged[of env i "state (tasks cfg ! i)" splits]
      by (simp add: step_self[OF len])
    have 3: "pc (tasks (step env i cfg) ! i) =
               Done (Inl (HTTPException 500 (''Error processing '' @ filename (fs ! i) @ '': '' @ e))) \<and>
             filter is_stage_call (trace (tasks (step env i cfg) ! i)) = [Load]"
      if "pc (tasks cfg ! i) = Loading"
        and "ingest_pdf_load env i (files (shared cfg)) (state (tasks cfg ! i)) = Inl e"
      for e
      using psr_loading_fails[OF that] job_ok_stage_calls(1)[OF ok that(1)]
      by (simp add: step_self[OF len] up is_stage_call_def)
    have 4: "pc (tasks (step env i cfg) ! i) =
               Done (Inl (HTTPException 500 (''Error processing '' @ filename (fs ! i) @ '': '' @ e))) \<and>
             filter is_stage_call (trace (tasks (step env i cfg) ! i)) = [Load, Index]"
      if "pc (tasks cfg ! i) = Adding splits"
        and "ingest_pdf_add env i (vector_store (shared cfg)) splits = Inl e"
      for splits e
      using psr_adding_fails[OF that] job_ok_stage_calls(2)[OF ok that(1)]
      by (simp add: step_self[OF len] up is_stage_call_def)
    have 5: "finished (tasks cfg ! i) \<longrightarrow> (\<forall>sched'. tasks (run env sched' cfg) ! i = tasks cfg ! i)"
      by (simp add: run_finished_same)
    have 6: "pc (tasks (step env i cfg) ! i) =
               Done (Inl (HTTPException 500 (''Error processing '' @ filename (fs ! i) @ '': '' @ e))) \<and>
             filter is_stage_call (trace (tasks (step env i cfg) ! i)) = [Load, Index, Extract]"
      if "pc (tasks cfg ! i) = Parsing"
        and "parse_resume env i (state (tasks cfg ! i)) = Inl e"
      for e
      using psr_parsing_fails[OF that] job_ok_stage_calls(3)[OF ok that(1)]
      by (simp add: step_self[OF len] up is_stage_call_def)
    from 1 2 3 4 5 6 show ?thesis by blast
  qed
  then show ?thesis
    unfolding Let_def cfg_def[symmetric] using workflow_order_eq by blast
qed

text \<open>
  Claim C7. Take a job at a stage (at the loader, at the vector store or at the model),
  with any state and in any shared state. If the step raises, so that the job ends with an
  exception, then the state of the job is the state it had before the step: no key is
  added, removed or given another value. What the failure produces is the exception with
  status 500 that carries the text of the stage's exception.
\<close>

theorem failed_stage_leaves_state_unchanged:
  assumes "holding j"
    and "process_single_resume env i j w = (j', w')"
    and "pc j' = Done (Inl e)"
  shows "state j' = state j \<and> dom (state j') = dom (state j) \<and>
         status_code e = 500 \<and>
         take (length (''Error processing '' @ filename (upload j) @ '': '')) (detail e) =
           ''Error processing '' @ filename (upload j) @ '': ''"
  using assms
  by (cases "pc j")
     (auto simp add: psr_defs holding_def ingest_pdf_add_def
        split: sum.splits option.splits pyval.splits prod.splits if_splits)

lemma collect_outcomes_Some:
  "collect_outcomes js = Some rs \<Longrightarrow>
     length rs = length js \<and> (\<forall>i < length js. outcome (js ! i) = Some (rs ! i))"
proof (induction js arbitrary: rs)
  case Nil
  then show ?case by simp
next
  case (Cons j js)
  from Cons.prems obtain r rs' where r: "outcome j = Some r"
    and rs': "collect_outcomes js = Some rs'" and rs: "rs = r # rs'"
    by (auto split: option.splits)
  from Cons.IH[OF rs'] r rs show ?case
    by (auto simp add: nth_Cons split: nat.splits)
qed


lemma final_results_eq:
  "final_results results acc = acc @ map projr (filter (\<lambda>r. \<not> isl r) results)"
proof (induction results arbitrary: acc)
  case Nil
  then show ?case by simp
next
  case (Cons r results)
  then show ?case by (cases r) simp_all
qed

lemma map_Inr_successes: "map Inr (map projr (filter (\<lambda>r. \<not> isl r) results)) = filter (\<lambda>r. \<not> isl r) results"
  by (induction results) (auto simp add: isl_def)

lemma batch_upload_resumes_Inr:
  assumes "batch_upload_resumes env sched fs w = Some (Inr rs, w')"
  shows "\<exists>results. gather env sched fs w = Some (results, w') \<and>
           rs = map projr (filter (\<lambda>r. \<not> isl r) results)"
  using assms
  by (auto simp add: batch_upload_resumes_def final_results_eq split: if_splits option.splits)

lemma gather_Some:
  assumes "gather env sched fs w = Some (results, w')"
  shows "length results = length fs"
    and "\<forall>i < length fs. outcome (tasks (run env sched (spawn fs w)) ! i) = Some (results ! i) \<and>
           upload (tasks (run env sched (spawn fs w)) ! i) = fs ! i"
proof -
  from assms have c: "collect_outcomes (tasks (run env sched (spawn fs w))) = Some results"
    by (auto simp add: gather_def Let_def split: option.splits)
  have len: "length (tasks (run env sched (spawn fs w))) = length fs"
    by (simp add: spawn_def)
  from collect_outcomes_Some[OF c] len show "length results = length fs" by simp
  from collect_outcomes_Some[OF c] len
  show "\<forall>i < length fs. outcome (tasks (run env sched (spawn fs w)) ! i) = Some (results ! i) \<and>
           upload (tasks (run env sched (spawn fs w)) ! i) = fs ! i"
    by (simp add: run_upload)
qed















lemma filter_by_index:
  "filter P xs = map (\<lambda>i. xs ! i) (filter (\<lambda>i. P (xs ! i)) [0..<length xs])"
proof -
  have "filter P xs = filter P (map (\<lambda>i. xs ! i) [0..<length xs])"
    by (simp only: map_nth)
  also have "\<dots> = map (\<lambda>i. xs ! i) (filter (P \<circ> (\<lambda>i. xs ! i)) [0..<length xs])"
    by (rule filter_map)
  finally show ?thesis by (simp add: comp_def)
qed

lemma succeeded_outcome: "outcome j = Some r \<Longrightarrow> succeeded j \<longleftrightarrow> \<not> isl r"
  by (cases r) (simp_all add: succeeded_def)

text \<open>
  Claim C10. When the batch operation returns a list, take the positions of the files whose
  job returned a record, in increasing order. The returned list is as long as this list of
  positions, and its \<open>k\<close>-th entry is the record returned by the job of the file at the
  \<open>k\<close>-th of these positions. So the returned records stand in the order of the files they
  come from, whatever the order in which the jobs finished, and the list is the list of the
  per-job results (one per file, in the order of the files) with the exceptions left out.
\<close>

theorem batch_successes_in_input_order:
  assumes "batch_upload_resumes env sched fs w = Some (Inr rs, w')"
  shows "let cfg = run env sched (spawn fs w);
             idx = filter (\<lambda>i. succeeded (tasks cfg ! i)) [0..<length fs]
         in length rs = length idx \<and> sorted_wrt (<) idx \<and>
            (\<forall>k < length rs.
               idx ! k < length fs \<and>
               upload (tasks cfg ! (idx ! k)) = fs ! (idx ! k) \<and>
               outcome (tasks cfg ! (idx ! k)) = Some (Inr (rs ! k))) \<and>
            (\<exists>results. gather env sched fs w = Some (results, w') \<and>
               length results = length fs \<and>
               (\<forall>i < length fs. outcome (tasks cfg ! i) = Some (results ! i)) \<and>
               map Inr rs = filter (\<lambda>r. \<not> isl r) results \<and>
               subseq (map Inr rs) results)"
proof -
  define cfg where "cfg = run env sched (spawn fs w)"
  define idx where "idx = filter (\<lambda>i. succeeded (tasks cfg ! i)) [0..<length fs]"
  from batch_upload_resumes_Inr[OF assms] obtain results
    where g: "gather env sched fs w = Some (results, w')"
      and rs: "rs = map projr (filter (\<lambda>r. \<not> isl r) results)"
    by blast
  from gather_Some[OF g] have len: "length results = length fs"
    and nth: "\<forall>i < length fs. outcome (tasks cfg ! i) = Some (results ! i) \<and>
                upload (tasks cfg ! i) = fs ! i"
    by (simp_all add: cfg_def)
  have idx: "idx = filter (\<lambda>i. \<not> isl (results ! i)) [0..<length results]"
    unfolding idx_def len
    by (rule filter_cong) (simp_all add: nth succeeded_outcome)
  have rs': "rs = map (\<lambda>i. projr (results ! i)) idx"
    unfolding rs idx by (subst filter_by_index) (simp add: comp_def)
  have 1: "length rs = length idx" by (simp add: rs')
  have 2: "sorted_wrt (<) idx" unfolding idx_def by (rule sorted_wrt_filter) simp
  have 3: "idx ! k < length fs \<and> upload (tasks cfg ! (idx ! k)) = fs ! (idx ! k) \<and>
           outcome (tasks cfg ! (idx ! k)) = Some (Inr (rs ! k))" if k: "k < length rs" for k
  proof -
    from k 1 have "idx ! k \<in> set idx" by simp
    then have i: "idx ! k < length fs" and s: "\<not> isl (results ! (idx ! k))"
      by (simp_all add: idx len)
    from k 1 have "rs ! k = projr (results ! (idx ! k))" by (simp add: rs')
    with s have "results ! (idx ! k) = Inr (rs ! k)"
      by (cases "results ! (idx ! k)") simp_all
    with nth i show ?thesis by simp
  qed
  from rs have 4: "map Inr rs = filter (\<lambda>r. \<not> isl r) results"
    by (simp only: map_Inr_successes)
  then have 5: "subseq (map Inr rs) results" by simp
  from g len nth 4 5
  have 6: "\<exists>results. gather env sched fs w = Some (results, w') \<and>
               length results = length fs \<and>
               (\<forall>i < length fs. outcome (tasks cfg ! i) = Some (results ! i)) \<and>
               map Inr rs = filter (\<lambda>r. \<not> isl r) results \<and>
               subseq (map Inr rs) results"
    by blast
  from 1 2 3 6 show ?thesis
    unfolding Let_def cfg_def[symmetric] idx_def[symmetric] by blast
qed



text \<open>
  Claim C2 fails on the code. Six files, the last two with the same name, five slots. When
  the call of job 4 to the vector store fails, job 4 removes the temporary file it shares
  with job 5, and job 5, which then takes the freed slot, fails at the loader. When the
  call succeeds, under the same schedule, job 5 returns its record.
\<close>

theorem failure_of_one_job_changes_outcome_of_another:
  "outcome (tasks (run (flaky_env 4) six_schedule (spawn six_files initial_world)) ! 4) =
     Some (Inl (HTTPException 500 ''Error processing cv.pdf: 429 Too Many Requests'')) \<and>
   outcome (tasks (run (flaky_env 4) six_schedule (spawn six_files initial_world)) ! 5) =
     Some (Inl (HTTPException 500
       ''Error processing cv.pdf: File path is not a valid file or url'')) \<and>
   outcome (tasks (run example_env six_schedule (spawn six_files initial_world)) ! 5) =
     Some (Inr (resume_of ''Fay''))"
  by code_simp

text \<open>
  Claim C4 fails on the code. In the batch of six files above, jobs 4 and 5 have the same
  file name, and both pass the validation. Job 5 writes its temporary file and waits for a
  slot. Job 4 fails at the vector store and its \<^verbatim>\<open>finally\<close> block removes the
  file. When job 5 has its slot and is about to run its first stage, there is no file at
  its path; its own \<^verbatim>\<open>finally\<close> block finds nothing and does not call
  \<^verbatim>\<open>os.remove\<close>. The temporary file of job 5 was released by another job, before the
  first stage of job 5, and never by job 5.
\<close>

theorem temp_file_removed_by_another_job:
  "endswith (filename (six_files ! 4)) ''.pdf'' \<and>
   endswith (filename (six_files ! 5)) ''.pdf'' \<and>
   temp_path (six_files ! 4) = temp_path (six_files ! 5) \<and>
   files (shared (run (flaky_env 4) (take 17 six_schedule) (spawn six_files initial_world)))
     (temp_path (six_files ! 5)) = Some (content (six_files ! 5)) \<and>
   pc (tasks (run (flaky_env 4) (take 21 six_schedule) (spawn six_files initial_world)) ! 5) =
     Loading \<and>
   filter is_stage_call
     (trace (tasks (run (flaky_env 4) (take 21 six_schedule) (spawn six_files initial_world)) ! 5)) =
     [] \<and>
   files (shared (run (flaky_env 4) (take 21 six_schedule) (spawn six_files initial_world)))
     (temp_path (six_files ! 5)) = None \<and>
   trace (tasks (run (flaky_env 4) six_schedule (spawn six_files initial_world)) ! 4) =
     [Create ''temp_cv.pdf'', Acquire, Load, Index, Release, Cleanup True] \<and>
   trace (tasks (run (flaky_env 4) six_schedule (spawn six_files initial_world)) ! 5) =
     [Create ''temp_cv.pdf'', Acquire, Load, Release, Cleanup False]"
  by code_simp

text \<open>
  Claim C8 fails on the code. Two files with the same name have the same temporary path.
  The second job's file replaces the first job's, both jobs then read the second file, and
  the first job to finish removes the file of the other, whose own cleanup finds nothing.
\<close>

theorem same_name_jobs_share_one_temp_file:
  "temp_path (twins ! 0) = temp_path (twins ! 1) \<and>
   files (shared (run example_env [0, 0] (spawn twins initial_world))) ''temp_resume.pdf'' =
     Some ''Ada'' \<and>
   files (shared (run example_env [0, 0, 1, 1] (spawn twins initial_world))) ''temp_resume.pdf'' =
     Some ''Grace'' \<and>
   map_option fst
     (batch_upload_resumes example_env [0, 0, 1, 1, 0, 1, 0, 1, 0, 1] twins initial_world) =
     Some (Inr [resume_of ''Grace'', resume_of ''Grace'']) \<and>
   trace (tasks (run example_env [0, 0, 1, 1, 0, 1, 0, 1, 0, 1] (spawn twins initial_world)) ! 1) =
     [Create ''temp_resume.pdf'', Acquire, Load, Index, Extract, Release, Cleanup False]"
  by code_simp

section \<open>The theorems at concrete batches\<close>

theorem ResumeData_round_trip_witness:
  "validate_ResumeData (dump_ResumeData MOCK_RESUME) = Some MOCK_RESUME"
  by (rule ResumeData_round_trip)

theorem batch_successes_in_input_order_witness:
  "batch_upload_resumes example_env last_first four_files initial_world =
     Some (Inr [resume_of ''Ada'', resume_of ''Cyd''],
           shared (run example_env last_first (spawn four_files initial_world))) \<and>
   finished (tasks (run example_env (take 5 last_first) (spawn four_files initial_world)) ! 3) \<and>
   pc (tasks (run example_env (take 5 last_first) (spawn four_files initial_world)) ! 0) = Start \<and>
   filter (\<lambda>i. succeeded (tasks (run example_env last_first (spawn four_files initial_world)) ! i))
     [0..<length four_files] = [0, 3] \<and>
   sorted_wrt (<) [0, 3 :: nat] \<and>
   upload (tasks (run example_env last_first (spawn four_files initial_world)) ! 0) =
     four_files ! 0 \<and>
   outcome (tasks (run example_env last_first (spawn four_files initial_world)) ! 0) =
     Some (Inr (resume_of ''Ada'')) \<and>
   upload (tasks (run example_env last_first (spawn four_files initial_world)) ! 3) =
     four_files ! 3 \<and>
   outcome (tasks (run example_env last_first (spawn four_files initial_world)) ! 3) =
     Some (Inr (resume_of ''Cyd''))"
proof -
  let ?C = "run example_env last_first (spawn four_files initial_world)"
  let ?B = "run example_env (take 5 last_first) (spawn four_files initial_world)"
  let ?results = "[Inr (resume_of ''Ada''), Inl (HTTPException 400 ''File notes.txt is not a PDF''),
      Inl (HTTPException 500 ''Error processing broken.pdf: invalid pdf header''),
      Inr (resume_of ''Cyd'')]"
  let ?rs = "[resume_of ''Ada'', resume_of ''Cyd'']"
  have c: "collect_outcomes (tasks ?C) = Some ?results" by code_simp
  have l: "\<not> 100 < length four_files" by code_simp
  have f3: "finished (tasks ?B ! 3)" and s0: "pc (tasks ?B ! 0) = Start" by code_simp+
  have idx: "filter (\<lambda>i. succeeded (tasks ?C ! i)) [0..<length four_files] = [0, 3]"
    by code_simp
  have g: "gather example_env last_first four_files initial_world = Some (?results, shared ?C)"
    using c by (simp only: gather_def Let_def option.case)
  have b: "batch_upload_resumes example_env last_first four_files initial_world =
             Some (Inr ?rs, shared ?C)"
    using g l by (simp add: batch_upload_resumes_def)
  note t = batch_successes_in_input_order[OF b, unfolded Let_def idx]
  from t have srt: "sorted_wrt (<) [0, 3 :: nat]" by blast
  from t have all: "\<forall>k < length ?rs.
       [0, 3] ! k < length four_files \<and>
       upload (tasks ?C ! ([0, 3] ! k)) = four_files ! ([0, 3] ! k) \<and>
       outcome (tasks ?C ! ([0, 3] ! k)) = Some (Inr (?rs ! k))"
    by blast
  from all[THEN spec, of 0]
  have u0: "upload (tasks ?C ! 0) = four_files ! 0"
    and o0: "outcome (tasks ?C ! 0) = Some (Inr (resume_of ''Ada''))"
    by simp_all
  from all[THEN spec, of 1]
  have u3: "upload (tasks ?C ! 3) = four_files ! 3"
    and o3: "outcome (tasks ?C ! 3) = Some (Inr (resume_of ''Cyd''))"
    by simp_all
  from b f3 s0 idx srt u0 o0 u3 o3 show ?thesis by (simp only: simp_thms)
qed


theorem gate_never_over_capacity_witness:
  "length (filter holding (tasks (run example_env [0, 0, 1, 1, 2, 2, 3, 3, 4, 4, 5, 5]
       (spawn six_files (initial_world\<lparr>semaphore := int 5\<rparr>))))) = 5 \<and>
   semaphore (shared (run example_env [0, 0, 1, 1, 2, 2, 3, 3, 4, 4, 5, 5]
       (spawn six_files (initial_world\<lparr>semaphore := int 5\<rparr>)))) = 0 \<and>
   pc (tasks (run example_env [0, 0, 1, 1, 2, 2, 3, 3, 4, 4, 5, 5]
       (spawn six_files (initial_world\<lparr>semaphore := int 5\<rparr>))) ! 5) = Acquiring \<and>
   holding (tasks (run example_env [0, 0, 1, 1, 2, 2, 3, 3, 4, 4, 5, 5]
       (spawn six_files (initial_world\<lparr>semaphore := int 5\<rparr>))) ! 0) \<and>
   gate_events (trace (tasks (run example_env [0, 0, 0]
       (run example_env [0, 0, 1, 1, 2, 2, 3, 3, 4, 4, 5, 5]
          (spawn six_files (initial_world\<lparr>semaphore := int 5\<rparr>)))) ! 0)) = [Acquire, Release]"
proof -
  let ?C = "run example_env [0, 0, 1, 1, 2, 2, 3, 3, 4, 4, 5, 5]
       (spawn six_files (initial_world\<lparr>semaphore := int 5\<rparr>))"
  note t = gate_never_over_capacity[where env = example_env
      and sched = "[0, 0, 1, 1, 2, 2, 3, 3, 4, 4, 5, 5]" and fs = six_files
      and w = initial_world and c = 5, unfolded Let_def]
  have n: "length (filter holding (tasks ?C)) = 5" by code_simp
  have w: "pc (tasks ?C ! 5) = Acquiring" by code_simp
  have h: "holding (tasks ?C ! 0)" by code_simp
  have l: "0 < length (tasks ?C)" by code_simp
  from t have "semaphore (shared ?C) = int 5 - int (length (filter holding (tasks ?C)))"
    by blast
  with n have z: "semaphore (shared ?C) = 0" by linarith
  from t l h
  have g: "gate_events (trace (tasks (run example_env [0, 0, 0] ?C) ! 0)) = [Acquire, Release]"
    by blast
  from n z w h g show ?thesis by (simp only: simp_thms)
qed

theorem rejection_before_any_work_witness:
  "\<not> endswith (filename (mixed ! 1)) ''.pdf'' \<and>
   trace (tasks (run example_env (one_by_one 3) (spawn mixed initial_world)) ! 1) = [] \<and>
   pc (tasks (run example_env [] (spawn mixed initial_world)) ! 1) = Start \<and>
   pc (tasks (step example_env 1 (run example_env [] (spawn mixed initial_world))) ! 1) =
     Done (Inl (HTTPException 400 (''File '' @ filename (mixed ! 1) @ '' is not a PDF''))) \<and>
   shared (step example_env 1 (run example_env [] (spawn mixed initial_world))) =
     shared (run example_env [] (spawn mixed initial_world)) \<and>
   100 < length (replicate 101 (mixed ! 0)) \<and>
   batch_upload_resumes example_env (one_by_one 101) (replicate 101 (mixed ! 0)) initial_world =
     Some (Inl (HTTPException 400 ''Batch limit exceeded (max 100 files)''), initial_world)"
proof -
  note t = rejection_before_any_work[of example_env "one_by_one 3" mixed initial_world,
      unfolded Let_def]
  note u = rejection_before_any_work[of example_env "[]" mixed initial_world, unfolded Let_def]
  note v = rejection_before_any_work[of example_env "one_by_one 101" "replicate 101 (mixed ! 0)"
      initial_world, unfolded Let_def]
  have a: "\<not> endswith (filename (mixed ! 1)) ''.pdf''" and l: "1 < length mixed"
    by code_simp+
  have s: "pc (tasks (run example_env [] (spawn mixed initial_world)) ! 1) = Start"
    by code_simp
  have big: "100 < length (replicate 101 (mixed ! 0))" by simp
  from t l a
  have 1: "trace (tasks (run example_env (one_by_one 3) (spawn mixed initial_world)) ! 1) = []"
    by blast
  from u l a s
  have 2: "pc (tasks (step example_env 1 (run example_env [] (spawn mixed initial_world))) ! 1) =
     Done (Inl (HTTPException 400 (''File '' @ filename (mixed ! 1) @ '' is not a PDF'')))"
    and 3: "shared (step example_env 1 (run example_env [] (spawn mixed initial_world))) =
     shared (run example_env [] (spawn mixed initial_world))"
    by blast+
  from v big
  have 4: "batch_upload_resumes example_env (one_by_one 101) (replicate 101 (mixed ! 0)) initial_world =
     Some (Inl (HTTPException 400 ''Batch limit exceeded (max 100 files)''), initial_world)"
    by blast
  from a 1 s 2 3 big 4 show ?thesis by (simp only: simp_thms)
qed

theorem stages_run_in_declared_order_witness:
  "prefix (filter is_stage_call
      (trace (tasks (run (flaky_env 4) (take 17 six_schedule) (spawn six_files initial_world)) ! 4)))
     [Load, Index, Extract] \<and>
   pc (tasks (run (flaky_env 4) (take 17 six_schedule) (spawn six_files initial_world)) ! 4) =
     Adding [''Fay''] \<and>
   ingest_pdf_add (flaky_env 4) 4
     (vector_store (shared (run (flaky_env 4) (take 17 six_schedule) (spawn six_files initial_world))))
     [''Fay''] = Inl ''429 Too Many Requests'' \<and>
   pc (tasks (step (flaky_env 4) 4
       (run (flaky_env 4) (take 17 six_schedule) (spawn six_files initial_world))) ! 4) =
     Done (Inl (HTTPException 500
       (''Error processing '' @ filename (six_files ! 4) @ '': '' @ ''429 Too Many Requests''))) \<and>
   filter is_stage_call (trace (tasks (step (flaky_env 4) 4
       (run (flaky_env 4) (take 17 six_schedule) (spawn six_files initial_world))) ! 4)) =
     [Load, Index] \<and>
   pc (tasks (run example_env [0, 0, 0] (spawn mixed initial_world)) ! 0) = Adding [''Ada''] \<and>
   add_documents example_env 0
     (vector_store (shared (run example_env [0, 0, 0] (spawn mixed initial_world)))) [''Ada''] =
     Inr [''Ada''] \<and>
   pc (tasks (step example_env 0 (run example_env [0, 0, 0] (spawn mixed initial_world))) ! 0) =
     Parsing \<and>
   state (tasks (step example_env 0 (run example_env [0, 0, 0] (spawn mixed initial_world))) ! 0) =
     state (tasks (run example_env [0, 0, 0] (spawn mixed initial_world)) ! 0) ++
       [''text_chunks'' \<mapsto> StrList [''Ada'']]"
proof -
  let ?D = "run (flaky_env 4) (take 17 six_schedule) (spawn six_files initial_world)"
  let ?E = "run example_env [0, 0, 0] (spawn mixed initial_world)"
  note t = stages_run_in_declared_order[of "flaky_env 4" "take 17 six_schedule" six_files
      initial_world, unfolded Let_def, THEN conjunct2, rule_format, of 4]
  note u = stages_run_in_declared_order[of example_env "[0, 0, 0]" mixed initial_world,
      unfolded Let_def, THEN conjunct2, rule_format, of 0]
  have l4: "4 < length six_files" and l0: "0 < length mixed" by code_simp+
  have p4: "pc (tasks ?D ! 4) = Adding [''Fay'']" by code_simp
  have e4: "ingest_pdf_add (flaky_env 4) 4 (vector_store (shared ?D)) [''Fay''] =
              Inl ''429 Too Many Requests''"
    by (simp add: ingest_pdf_add_def flaky_env_def del: run.simps)
  have p0: "pc (tasks ?E ! 0) = Adding [''Ada'']" by code_simp
  have e0: "add_documents example_env 0 (vector_store (shared ?E)) [''Ada''] = Inr [''Ada'']"
    by code_simp
  from t[OF l4]
  have 1: "prefix (filter is_stage_call (trace (tasks ?D ! 4))) [Load, Index, Extract]"
    by blast
  from t[OF l4] p4 e4
  have 2: "pc (tasks (step (flaky_env 4) 4 ?D) ! 4) =
     Done (Inl (HTTPException 500
       (''Error processing '' @ filename (six_files ! 4) @ '': '' @ ''429 Too Many Requests'')))"
    and 3: "filter is_stage_call (trace (tasks (step (flaky_env 4) 4 ?D) ! 4)) = [Load, Index]"
    by blast+
  from u[OF l0] p0 e0
  have 4: "pc (tasks (step example_env 0 ?E) ! 0) = Parsing"
    and 5: "state (tasks (step example_env 0 ?E) ! 0) =
              state (tasks ?E ! 0) ++ [''text_chunks'' \<mapsto> StrList [''Ada'']]"
    by blast+
  from 1 p4 e4 2 3 p0 e0 4 5 show ?thesis by (simp only: simp_thms)
qed

theorem failed_stage_leaves_state_unchanged_witness:
  "holding (tasks (run example_env [2, 2] (spawn mixed initial_world)) ! 2) \<and>
   pc (fst (process_single_resume example_env 2
         (tasks (run example_env [2, 2] (spawn mixed initial_world)) ! 2)
         (shared (run example_env [2, 2] (spawn mixed initial_world))))) =
     Done (Inl (HTTPException 500 ''Error processing broken.pdf: invalid pdf header'')) \<and>
   state (fst (process_single_resume example_env 2
         (tasks (run example_env [2, 2] (spawn mixed initial_world)) ! 2)
         (shared (run example_env [2, 2] (spawn mixed initial_world))))) =
     state (tasks (run example_env [2, 2] (spawn mixed initial_world)) ! 2)"
proof -
  let ?j = "tasks (run example_env [2, 2] (spawn mixed initial_world)) ! 2"
  let ?w = "shared (run example_env [2, 2] (spawn mixed initial_world))"
  let ?r = "process_single_resume example_env 2 ?j ?w"
  have h: "holding ?j" by code_simp
  have p: "pc (fst ?r) =
     Done (Inl (HTTPException 500 ''Error processing broken.pdf: invalid pdf header''))"
    by code_simp
  have r: "?r = (fst ?r, snd ?r)" by (rule surjective_pairing)
  from failed_stage_leaves_state_unchanged[OF h r p]
  have "state (fst ?r) = state ?j" by blast
  with h p show ?thesis by (simp only: simp_thms)
qed

end
